theory Spec2Isabelle
  imports Main
begin

section \<open>insigniaDNS: records, zone table and resolver\<close>

text \<open>
  A shallow embedding of \<^verbatim>\<open>src/insigniaDNS.py\<close>: the class \<^verbatim>\<open>Record\<close>, the loop that
  fills the module-level dictionary \<^verbatim>\<open>ZONES\<close>, and the class \<^verbatim>\<open>Resolver\<close>.
  Python exceptions are values of the type \<open>error\<close>; a function that can raise returns
  \<open>error + 'a\<close> with \<open>Inl\<close> for the exception. Python dictionaries keep insertion order, and
  the resolver depends on it, so a dictionary is an association list.
\<close>

subsection \<open>Exceptions\<close>

datatype error =
    KeyError string       \<comment> \<open>a missing dictionary key (\<^verbatim>\<open>zone["type"]\<close>, \<^verbatim>\<open>TYPE_LOOKUP[...]\<close>)\<close>
  | AttributeError        \<comment> \<open>an attribute read on \<^verbatim>\<open>None\<close>\<close>
  | RDataError            \<comment> \<open>the dnslib payload constructor rejected its arguments\<close>
  | HostError string      \<comment> \<open>\<^verbatim>\<open>gethostbyname\<close> could not resolve the host\<close>

subsection \<open>Dictionaries with insertion order\<close>

text \<open>
  \<^verbatim>\<open>d[k] = v\<close>: an existing key keeps its position and gets the new value, a new key goes
  to the end. \<^verbatim>\<open>d.get(k)\<close> is \<^const>\<open>map_of\<close>.
\<close>

fun setitem :: "('k \<times> 'v) list \<Rightarrow> 'k \<Rightarrow> 'v \<Rightarrow> ('k \<times> 'v) list" where
  "setitem [] k v = [(k, v)]"
| "setitem ((k', v') # d) k v = (if k' = k then (k, v) # d else (k', v') # setitem d k v)"

text \<open>\<^verbatim>\<open>d[k]\<close> raises \<^verbatim>\<open>KeyError\<close> on a missing key.\<close>

definition getitem :: "(string \<times> 'v) list \<Rightarrow> string \<Rightarrow> error + 'v" where
  "getitem d k = (case map_of d k of None \<Rightarrow> Inl (KeyError k) | Some v \<Rightarrow> Inr v)"

subsection \<open>Domain names\<close>

text \<open>
  Modelled from the spec: dnslib's \<^verbatim>\<open>DNSLabel\<close> is imported by the source and is not part of
  it. The spec (3, 4.1) gives a name as a sequence of labels, compared case-insensitively,
  the trailing root dot ignored, and \<^verbatim>\<open>matchSuffix\<close> as "the candidate's label sequence
  ends with the zone's label sequence". A name is kept in normal form (lower-case labels),
  so that the case-insensitive \<^verbatim>\<open>__eq__\<close> and \<^verbatim>\<open>__hash__\<close> that a dictionary keyed by
  names uses are HOL equality.
\<close>

type_synonym dnslabel = "string list"

definition lower_char :: "char \<Rightarrow> char" where
  "lower_char c =
     (let n = (of_char c :: nat)
      in if 65 \<le> n \<and> n \<le> 90
         then (case c of Char b0 b1 b2 b3 b4 b5 b6 b7 \<Rightarrow> Char b0 b1 b2 b3 b4 True b6 b7)
         else c)"

fun split_dot :: "string \<Rightarrow> string list" where
  "split_dot [] = [[]]"
| "split_dot (c # cs) =
     (if c = CHR ''.'' then [] # split_dot cs
      else (case split_dot cs of [] \<Rightarrow> [[c]] | l # ls \<Rightarrow> (c # l) # ls))"

definition rstrip_dot :: "string \<Rightarrow> string" where
  "rstrip_dot s = rev (dropWhile (\<lambda>c. c = CHR ''.'') (rev s))"

definition DNSLabel :: "string \<Rightarrow> dnslabel" where
  "DNSLabel s =
     (let t = rstrip_dot s in if t = [] then [] else map (map lower_char) (split_dot t))"

definition matchSuffix :: "dnslabel \<Rightarrow> dnslabel \<Rightarrow> bool" where
  "matchSuffix self suffix \<longleftrightarrow>
     length suffix \<le> length self \<and> drop (length self - length suffix) self = suffix"

subsection \<open>Payload classes and query types\<close>

text \<open>
  The dnslib payload classes the source imports, and any other subclass of \<^verbatim>\<open>RD\<close> by its
  name. \<^verbatim>\<open>QTYPE\<close> codes are the numbers of RFC 1035; a query may carry any code.
\<close>

datatype rd_class = A | AAAA | CNAME | MX | NS | SOA | TXT | RD_other string

definition QTYPE_A :: nat where "QTYPE_A = 1"
definition QTYPE_NS :: nat where "QTYPE_NS = 2"
definition QTYPE_CNAME :: nat where "QTYPE_CNAME = 5"
definition QTYPE_SOA :: nat where "QTYPE_SOA = 6"
definition QTYPE_MX :: nat where "QTYPE_MX = 15"
definition QTYPE_TXT :: nat where "QTYPE_TXT = 16"
definition QTYPE_AAAA :: nat where "QTYPE_AAAA = 28"
definition QTYPE_ANY :: nat where "QTYPE_ANY = 255"

fun TYPE_LOOKUP :: "rd_class \<Rightarrow> nat option" where
  "TYPE_LOOKUP A = Some QTYPE_A"
| "TYPE_LOOKUP AAAA = Some QTYPE_AAAA"
| "TYPE_LOOKUP CNAME = Some QTYPE_CNAME"
| "TYPE_LOOKUP MX = Some QTYPE_MX"
| "TYPE_LOOKUP NS = Some QTYPE_NS"
| "TYPE_LOOKUP SOA = Some QTYPE_SOA"
| "TYPE_LOOKUP TXT = Some QTYPE_TXT"
| "TYPE_LOOKUP (RD_other n) = None"

text \<open>
  A positional argument of a payload constructor is a string, an integer or a tuple of
  integers (the SOA times). A payload object is the class with the arguments it was built
  from: dnslib's own parsing of them is outside the source.
\<close>

datatype arg = Str string | Num int | Tuple "int list"

datatype rdata = RD rd_class "arg list"

fun rd_class_of :: "rdata \<Rightarrow> rd_class" where
  "rd_class_of (RD c args) = c"

text \<open>The first argument of \<^verbatim>\<open>Record\<close>: a payload class, or a payload object.\<close>

datatype rdata_type = Cls rd_class | Inst rdata

subsection \<open>What the module takes from outside\<close>

text \<open>
  \<^verbatim>\<open>SERIAL\<close> is computed once when the module loads (whole seconds since the epoch);
  \<^verbatim>\<open>gethostbyname\<close> answers from the network (\<open>None\<close>: it raises); \<open>rd_valid c args\<close>
  says that dnslib's constructor of class \<open>c\<close> accepts \<open>args\<close> (otherwise it raises).
\<close>

record env =
  SERIAL :: int
  gethostbyname :: "string \<Rightarrow> string option"
  rd_valid :: "rd_class \<Rightarrow> arg list \<Rightarrow> bool"

subsection \<open>The class Record\<close>

text \<open>
  \<open>rec_rtype\<close> is \<^verbatim>\<open>self._rtype\<close>, \<open>rec_rname\<close> is \<^verbatim>\<open>self._rname\<close>, \<open>rec_rdata\<close> and
  \<open>rec_ttl\<close> are the entries of \<^verbatim>\<open>self.kwargs\<close>. Further keyword arguments are handed on to
  dnslib's \<^verbatim>\<open>RR\<close> untouched; no call in the source passes one and they are left out.
\<close>

record Record =
  rec_rtype :: nat
  rec_rname :: "string option"
  rec_rdata :: rdata
  rec_ttl :: int

record RR =
  rr_rname :: dnslabel
  rr_rtype :: nat
  rr_rdata :: rdata
  rr_ttl :: int

record question =
  qname :: dnslabel
  qtype :: nat

definition sensible_ttl :: "nat \<Rightarrow> int" where
  "sensible_ttl self_rtype =
     (if self_rtype = QTYPE_NS \<or> self_rtype = QTYPE_SOA then 60 * 60 * 24 else 300)"

text \<open>
  The tail of \<^verbatim>\<open>__init__\<close>, after the payload is there: \<^verbatim>\<open>if rtype:\<close> takes an override
  that is not 0, and the TTL is the explicit one unless it is \<^verbatim>\<open>None\<close>.
\<close>

definition init_fields :: "nat \<Rightarrow> rdata \<Rightarrow> nat option \<Rightarrow> string option \<Rightarrow> int option \<Rightarrow> Record" where
  "init_fields looked_up rd rtype_arg rname_arg ttl_arg =
     (let t = (case rtype_arg of None \<Rightarrow> looked_up
               | Some t' \<Rightarrow> if t' \<noteq> 0 then t' else looked_up)
      in \<lparr> rec_rtype = t, rec_rname = rname_arg, rec_rdata = rd,
           rec_ttl = (case ttl_arg of None \<Rightarrow> sensible_ttl t | Some v \<Rightarrow> v) \<rparr>)"

definition Record_init ::
  "env \<Rightarrow> rdata_type \<Rightarrow> arg list \<Rightarrow> nat option \<Rightarrow> string option \<Rightarrow> int option \<Rightarrow> error + Record" where
  "Record_init e rdata_type args rtype_arg rname_arg ttl_arg =
     (case rdata_type of
        Inst rd \<Rightarrow>
          (case TYPE_LOOKUP (rd_class_of rd) of
             None \<Rightarrow> Inl (KeyError ''rdata class'')
           | Some t \<Rightarrow> Inr (init_fields t rd rtype_arg rname_arg ttl_arg))
      | Cls c \<Rightarrow>
          (case TYPE_LOOKUP c of
             None \<Rightarrow> Inl (KeyError ''rdata class'')
           | Some t \<Rightarrow>
               (let args' = (if c = SOA \<and> length args = 2
                             then args @ [Tuple [SERIAL e, 60 * 60 * 1, 60 * 60 * 3,
                                                 60 * 60 * 24, 60 * 60 * 1]]
                             else args)
                in if rd_valid e c args'
                   then Inr (init_fields t (RD c args') rtype_arg rname_arg ttl_arg)
                   else Inl RDataError)))"

text \<open>
  \<^verbatim>\<open>self._rname or alt_rname\<close>: \<^verbatim>\<open>None\<close> and the empty string are false, any other string is
  the owner (dnslib's \<^verbatim>\<open>RR\<close> turns it into a name).
\<close>

definition as_rr :: "Record \<Rightarrow> dnslabel \<Rightarrow> RR" where
  "as_rr self alt_rname =
     \<lparr> rr_rname = (case rec_rname self of
                     None \<Rightarrow> alt_rname
                   | Some n \<Rightarrow> if n = [] then alt_rname else DNSLabel n),
       rr_rtype = rec_rtype self, rr_rdata = rec_rdata self, rr_ttl = rec_ttl self \<rparr>"

text \<open>\<^verbatim>\<open>try_rr\<close> returns \<^verbatim>\<open>None\<close> by falling off its end when the query does not match.\<close>

definition try_rr :: "Record \<Rightarrow> question \<Rightarrow> RR option" where
  "try_rr self q =
     (if qtype q = QTYPE_ANY \<or> qtype q = rec_rtype self then Some (as_rr self (qname q))
      else None)"

definition is_soa :: "Record \<Rightarrow> bool" where
  "is_soa self \<longleftrightarrow> rec_rtype self = QTYPE_SOA"

subsection \<open>The loop that fills ZONES\<close>

text \<open>
  An entry of the provider's list is a JSON object with string values. The right-hand
  side of the assignment is evaluated first (\<^verbatim>\<open>zone["value"]\<close>, a host lookup for type
  \<^verbatim>\<open>"p"\<close>, the record), then \<^verbatim>\<open>zone["name"]\<close>; an exception leaves the loop and ends the
  module. An entry of any other type runs neither branch.
\<close>

type_synonym zone_entry = "(string \<times> string) list"

type_synonym zone_dict = "(string \<times> Record list) list"

definition zone_step :: "env \<Rightarrow> zone_dict \<Rightarrow> zone_entry \<Rightarrow> error + zone_dict" where
  "zone_step e ZONES zone =
     (case getitem zone ''type'' of
        Inl x \<Rightarrow> Inl x
      | Inr ty \<Rightarrow>
          if ty = ''a'' then
            (case getitem zone ''value'' of
               Inl x \<Rightarrow> Inl x
             | Inr v \<Rightarrow>
                 (case Record_init e (Cls A) [Str v] None None None of
                    Inl x \<Rightarrow> Inl x
                  | Inr r \<Rightarrow>
                      (case getitem zone ''name'' of
                         Inl x \<Rightarrow> Inl x
                       | Inr n \<Rightarrow> Inr (setitem ZONES n [r]))))
          else if ty = ''p'' then
            (case getitem zone ''value'' of
               Inl x \<Rightarrow> Inl x
             | Inr v \<Rightarrow>
                 (case gethostbyname e v of
                    None \<Rightarrow> Inl (HostError v)
                  | Some ip \<Rightarrow>
                      (case Record_init e (Cls A) [Str ip] None None None of
                         Inl x \<Rightarrow> Inl x
                       | Inr r \<Rightarrow>
                           (case getitem zone ''name'' of
                              Inl x \<Rightarrow> Inl x
                            | Inr n \<Rightarrow> Inr (setitem ZONES n [r])))))
          else Inr ZONES)"

fun zones_loop :: "env \<Rightarrow> zone_dict \<Rightarrow> zone_entry list \<Rightarrow> error + zone_dict" where
  "zones_loop e ZONES [] = Inr ZONES"
| "zones_loop e ZONES (zone # rest) =
     (case zone_step e ZONES zone of
        Inl x \<Rightarrow> Inl x
      | Inr ZONES' \<Rightarrow> zones_loop e ZONES' rest)"

text \<open>\<^verbatim>\<open>ZONES = {}\<close>, then the loop.\<close>

definition build_ZONES :: "env \<Rightarrow> zone_entry list \<Rightarrow> error + zone_dict" where
  "build_ZONES e zones_in = zones_loop e [] zones_in"

subsection \<open>The class Resolver\<close>

text \<open>
  The resolver object holds \<^verbatim>\<open>self.zones\<close>. \<^verbatim>\<open>__init__\<close> is the dictionary comprehension
  \<^verbatim>\<open>{DNSLabel(k): v for k, v in ZONES.items()}\<close>.
\<close>

record Resolver =
  zones :: "(dnslabel \<times> Record list) list"

fun relabel :: "(dnslabel \<times> Record list) list \<Rightarrow> zone_dict \<Rightarrow> (dnslabel \<times> Record list) list" where
  "relabel acc [] = acc"
| "relabel acc ((k, v) # items) = relabel (setitem acc (DNSLabel k) v) items"

definition Resolver_init :: "zone_dict \<Rightarrow> Resolver" where
  "Resolver_init ZONES = \<lparr> zones = relabel [] ZONES \<rparr>"

text \<open>
  The loop over the records of the zone found under the queried name. The \<^verbatim>\<open>print\<close>
  formats \<^verbatim>\<open>rr.rdata\<close> before \<^verbatim>\<open>rr\<close> is tested, so a record that does not match (\<^verbatim>\<open>rr\<close> is
  \<^verbatim>\<open>None\<close>) raises \<^verbatim>\<open>AttributeError\<close> there; what it writes to the terminal is not
  modelled. A dnslib \<^verbatim>\<open>RR\<close> object is true, so \<^verbatim>\<open>rr and reply.add_answer(rr)\<close> adds it.
\<close>

fun answer_loop :: "question \<Rightarrow> Record list \<Rightarrow> RR list \<Rightarrow> error + RR list" where
  "answer_loop q [] reply = Inr reply"
| "answer_loop q (zone_records # rest) reply =
     (case try_rr zone_records q of
        None \<Rightarrow> Inl AttributeError
      | Some rr \<Rightarrow> answer_loop q rest (reply @ [rr]))"

text \<open>
  The loop over \<^verbatim>\<open>self.zones.items()\<close> when there is no zone under the queried name:
  \<^verbatim>\<open>next(...)\<close> is the first SOA record of the zone, \<^verbatim>\<open>StopIteration\<close> goes on to the next
  zone, and \<^verbatim>\<open>break\<close> ends the loop after one answer.
\<close>

fun soa_loop :: "question \<Rightarrow> (dnslabel \<times> Record list) list \<Rightarrow> RR list \<Rightarrow> RR list" where
  "soa_loop q [] reply = reply"
| "soa_loop q ((zone_label, zone_records) # rest) reply =
     (if matchSuffix (qname q) zone_label then
        (case find is_soa zone_records of
           None \<Rightarrow> soa_loop q rest reply
         | Some soa_record \<Rightarrow> reply @ [as_rr soa_record zone_label])
      else soa_loop q rest reply)"

text \<open>
  \<^verbatim>\<open>resolve\<close> takes the resolver and the question of the request (the handler is not
  used) and returns the resolver as it leaves it, with the answers of the reply or the
  exception.
\<close>

definition resolve :: "Resolver \<Rightarrow> question \<Rightarrow> Resolver \<times> (error + RR list)" where
  "resolve self q =
     (case map_of (zones self) (qname q) of
        Some zone \<Rightarrow> (self, answer_loop q zone [])
      | None \<Rightarrow> (self, Inr (soa_loop q (zones self) [])))"

subsection \<open>Example data\<close>

text \<open>
  An environment in which dnslib accepts every payload and one host name resolves, and the
  records and names of the examples of the spec (8). \<open>a_record ip\<close> is the record that
  \<^verbatim>\<open>Record(A, ip)\<close> builds.
\<close>

definition env0 :: env where
  "env0 = \<lparr> SERIAL = 1700000000,
            gethostbyname = (\<lambda>h. if h = ''macs.insig.uk'' then Some ''10.0.0.7'' else None),
            rd_valid = (\<lambda>c args. True) \<rparr>"

definition a_record :: "string \<Rightarrow> Record" where
  "a_record ip =
     \<lparr> rec_rtype = QTYPE_A, rec_rname = None, rec_rdata = RD A [Str ip], rec_ttl = 300 \<rparr>"

definition txt_record :: Record where
  "txt_record = \<lparr> rec_rtype = QTYPE_TXT, rec_rname = None, rec_rdata = RD TXT [Str ''hello''],
                  rec_ttl = 300 \<rparr>"

definition soa_record0 :: Record where
  "soa_record0 = \<lparr> rec_rtype = QTYPE_SOA, rec_rname = None,
                   rec_rdata = RD SOA [Str ''ns.com'', Str ''admin.com'',
                                       Tuple [1700000000, 3600, 10800, 86400, 3600]],
                   rec_ttl = 86400 \<rparr>"

definition soa_record_named :: Record where
  "soa_record_named = soa_record0 \<lparr> rec_rname := Some ''ns.other.org'' \<rparr>"

definition name_com :: dnslabel where "name_com = [''com'']"
definition name_example_com :: dnslabel where "name_example_com = [''example'', ''com'']"
definition name_www_example_com :: dnslabel where
  "name_www_example_com = [''www'', ''example'', ''com'']"

definition name_net :: dnslabel where "name_net = [''net'']"
definition name_example_net :: dnslabel where "name_example_net = [''example'', ''net'']"
definition name_sub_net :: dnslabel where "name_sub_net = [''sub'', ''net'']"

text \<open>Entries of the provider's list, of type \<^verbatim>\<open>"a"\<close> and of type \<^verbatim>\<open>"p"\<close>.\<close>

definition entry_a :: "string \<Rightarrow> string \<Rightarrow> zone_entry" where
  "entry_a n v = [(''type'', ''a''), (''name'', n), (''value'', v)]"

definition entry_p :: "string \<Rightarrow> string \<Rightarrow> zone_entry" where
  "entry_p n v = [(''type'', ''p''), (''name'', n), (''value'', v)]"

subsection \<open>Notions used in the statements\<close>

text \<open>
  The name of an entry; the address its record is built from (the value of an \<^verbatim>\<open>"a"\<close>
  entry, the host lookup of the value of a \<^verbatim>\<open>"p"\<close> entry); a well-formed entry has one of
  the two types, a value that gives an address dnslib accepts, and a name. \<open>entry_bucket\<close>
  is the list the loop stores for a well-formed entry, \<open>put_entry\<close> the store itself.
  \<open>first_seen\<close> keeps the first occurrence of each element of a list, in order.
\<close>

definition entry_name :: "zone_entry \<Rightarrow> string" where
  "entry_name zone = (case map_of zone ''name'' of None \<Rightarrow> [] | Some n \<Rightarrow> n)"

definition entry_address :: "env \<Rightarrow> zone_entry \<Rightarrow> string option" where
  "entry_address e zone =
     (case map_of zone ''type'' of
        None \<Rightarrow> None
      | Some ty \<Rightarrow>
          if ty = ''a'' then map_of zone ''value''
          else if ty = ''p'' then
            (case map_of zone ''value'' of None \<Rightarrow> None | Some v \<Rightarrow> gethostbyname e v)
          else None)"

definition well_formed :: "env \<Rightarrow> zone_entry \<Rightarrow> bool" where
  "well_formed e zone \<longleftrightarrow>
     (case entry_address e zone of
        None \<Rightarrow> False
      | Some ip \<Rightarrow> rd_valid e A [Str ip] \<and> map_of zone ''name'' \<noteq> None)"

definition entry_bucket :: "env \<Rightarrow> zone_entry \<Rightarrow> Record list" where
  "entry_bucket e zone = (case entry_address e zone of None \<Rightarrow> [] | Some ip \<Rightarrow> [a_record ip])"

definition first_seen :: "'a list \<Rightarrow> 'a list" where
  "first_seen xs = rev (remdups (rev xs))"

definition put_entry :: "env \<Rightarrow> zone_dict \<Rightarrow> zone_entry \<Rightarrow> zone_dict" where
  "put_entry e ZONES zone = setitem ZONES (entry_name zone) (entry_bucket e zone)"

text \<open>
  An entry that makes the loop raise: it has no type, or it has one of the two types and
  no name or no value (which exception is raised depends on what fails first: a missing
  key, the host lookup or the payload). An entry of any other type.
\<close>

definition lacks_field :: "zone_entry \<Rightarrow> bool" where
  "lacks_field zone \<longleftrightarrow>
     (case map_of zone ''type'' of
        None \<Rightarrow> True
      | Some ty \<Rightarrow> (ty = ''a'' \<or> ty = ''p'') \<and>
                   (map_of zone ''name'' = None \<or> map_of zone ''value'' = None))"

definition other_type :: "zone_entry \<Rightarrow> bool" where
  "other_type zone \<longleftrightarrow>
     (case map_of zone ''type'' of None \<Rightarrow> False | Some ty \<Rightarrow> ty \<noteq> ''a'' \<and> ty \<noteq> ''p'')"

text \<open>A list of exactly one record, of type A: what the loop stores under a name.\<close>

definition a_bucket :: "Record list \<Rightarrow> bool" where
  "a_bucket rs \<longleftrightarrow> (case rs of [r] \<Rightarrow> rec_rtype r = QTYPE_A | _ \<Rightarrow> False)"

section \<open>Properties\<close>

lemmas QTYPE_defs =
  QTYPE_A_def QTYPE_NS_def QTYPE_CNAME_def QTYPE_SOA_def QTYPE_MX_def QTYPE_TXT_def
  QTYPE_AAAA_def QTYPE_ANY_def

subsection \<open>The zone found under the queried name\<close>

text \<open>
  One record that does not match the query is enough for the loop to raise; when every
  record matches, the reply holds one answer per record, in the order of the records.
\<close>

lemma answer_loop_raises:
  "\<exists>r\<in>set zone. try_rr r q = None \<Longrightarrow> answer_loop q zone reply = Inl AttributeError"
  by (induction zone arbitrary: reply) (auto split: option.splits)

lemma answer_loop_all_match:
  "\<forall>r\<in>set zone. try_rr r q \<noteq> None \<Longrightarrow>
   answer_loop q zone reply = Inr (reply @ map (\<lambda>r. as_rr r (qname q)) zone)"
proof (induction zone arbitrary: reply)
  case Nil
  then show ?case by simp
next
  case (Cons r zone)
  then have m: "try_rr r q = Some (as_rr r (qname q))"
    by (auto simp: try_rr_def split: if_splits)
  from Cons show ?case by (simp add: m)
qed

lemma answer_loop_any:
  "qtype q = QTYPE_ANY \<Longrightarrow>
   answer_loop q zone [] = Inr (map (\<lambda>r. as_rr r (qname q)) zone)"
  using answer_loop_all_match [of zone q "[]"] by (simp add: try_rr_def)

text \<open>
  C1. The claim: a query whose name has a zone and whose type matches none of the zone's
  records returns normally with no answers. The code at the zone \<open>example.com\<close> holding one
  A record, asked for MX: the zone is found, \<^verbatim>\<open>try_rr\<close> returns \<^verbatim>\<open>None\<close>, and \<^verbatim>\<open>resolve\<close>
  raises \<^verbatim>\<open>AttributeError\<close> where the \<^verbatim>\<open>print\<close> reads \<^verbatim>\<open>rr.rdata\<close>.
\<close>

theorem unmatched_qtype_raises:
  "map_of (zones \<lparr> zones = [(name_example_com, [a_record ''1.2.3.4''])] \<rparr>) name_example_com
     = Some [a_record ''1.2.3.4'']
   \<and> try_rr (a_record ''1.2.3.4'') \<lparr> qname = name_example_com, qtype = QTYPE_MX \<rparr> = None
   \<and> snd (resolve \<lparr> zones = [(name_example_com, [a_record ''1.2.3.4''])] \<rparr>
                   \<lparr> qname = name_example_com, qtype = QTYPE_MX \<rparr>) = Inl AttributeError"
  by (simp add: resolve_def try_rr_def a_record_def QTYPE_defs)

text \<open>
  C2. The claim: the answers are exactly the records of the zone that match the query, in
  stored order. The code at the zone \<open>example.com\<close> holding an A record and a TXT record,
  asked for A: the A record gives an answer, the TXT record gives \<^verbatim>\<open>None\<close>, and \<^verbatim>\<open>resolve\<close>
  raises \<^verbatim>\<open>AttributeError\<close> instead of returning the one answer.
\<close>

theorem a_query_on_a_txt_zone_raises:
  "try_rr (a_record ''1.2.3.4'') \<lparr> qname = name_example_com, qtype = QTYPE_A \<rparr>
     = Some \<lparr> rr_rname = name_example_com, rr_rtype = QTYPE_A,
              rr_rdata = RD A [Str ''1.2.3.4''], rr_ttl = 300 \<rparr>
   \<and> try_rr txt_record \<lparr> qname = name_example_com, qtype = QTYPE_A \<rparr> = None
   \<and> snd (resolve \<lparr> zones = [(name_example_com, [a_record ''1.2.3.4'', txt_record])] \<rparr>
                   \<lparr> qname = name_example_com, qtype = QTYPE_A \<rparr>) = Inl AttributeError"
  by (simp add: resolve_def try_rr_def as_rr_def a_record_def txt_record_def QTYPE_defs)

subsection \<open>The resolver is not written to\<close>

text \<open>
  C8. Whatever the query, and whether \<^verbatim>\<open>resolve\<close> returns or raises, the resolver it
  leaves is the resolver it was given: the same names, in the same order, with the same
  records.
\<close>

theorem resolve_leaves_resolver: "fst (resolve self q) = self"
  by (simp add: resolve_def split: option.splits)

text \<open>
  C9. A second call of \<^verbatim>\<open>resolve\<close> with the same query, on the resolver the first call
  left, gives the same result as the first: the same answers in the same order, or the
  same exception.
\<close>

theorem resolve_twice_same:
  "snd (resolve (fst (resolve self q)) q) = snd (resolve self q)"
  by (simp add: resolve_def split: option.splits)

subsection \<open>No zone under the queried name\<close>

text \<open>
  Zones that do not end the queried name, or hold no SOA record, are passed over; the
  first zone that does both ends the loop with one answer.
\<close>

lemma soa_loop_skip:
  "\<forall>(l, rs)\<in>set pre. \<not> (matchSuffix (qname q) l \<and> (\<exists>r\<in>set rs. is_soa r)) \<Longrightarrow>
   soa_loop q (pre @ rest) reply = soa_loop q rest reply"
proof (induction pre)
  case Nil
  then show ?case by simp
next
  case (Cons z pre)
  obtain l rs where z: "z = (l, rs)" by (cases z)
  from Cons.prems z have "\<not> matchSuffix (qname q) l \<or> find is_soa rs = None"
    by (auto simp: find_None_iff)
  with Cons z show ?case by auto
qed

lemma soa_loop_none:
  "\<forall>(l, rs)\<in>set zs. \<not> (matchSuffix (qname q) l \<and> (\<exists>r\<in>set rs. is_soa r)) \<Longrightarrow>
   soa_loop q zs reply = reply"
  using soa_loop_skip [of zs q "[]" reply] by simp

text \<open>
  C3, amended. When no zone is stored under the queried name, the zones are scanned in
  stored order. The first zone whose name ends the queried name and that holds an SOA
  record gives the whole reply: one answer, built from the first SOA record of that zone,
  whose owner is the rname override of that record when it has a non-empty one and the
  name of the zone (not the queried name) otherwise. Zones before it that match the
  suffix and hold no SOA record are skipped, and zones after it are not looked at, so an
  earlier, shorter suffix wins over a later, longer one. When no zone both matches and
  holds an SOA record, the reply has no answers.
\<close>

theorem fallback_first_soa_zone:
  assumes "map_of (zones self) (qname q) = None"
  shows "(\<forall>pre zone_label zone_records post soa_record.
            zones self = pre @ (zone_label, zone_records) # post \<and>
            (\<forall>(l, rs)\<in>set pre. \<not> (matchSuffix (qname q) l \<and> (\<exists>r\<in>set rs. is_soa r))) \<and>
            matchSuffix (qname q) zone_label \<and> find is_soa zone_records = Some soa_record
            \<longrightarrow> snd (resolve self q) = Inr [as_rr soa_record zone_label]
                \<and> rr_rtype (as_rr soa_record zone_label) = QTYPE_SOA
                \<and> rr_rname (as_rr soa_record zone_label) =
                    (case rec_rname soa_record of
                       None \<Rightarrow> zone_label
                     | Some n \<Rightarrow> if n = [] then zone_label else DNSLabel n))
       \<and> ((\<forall>(l, rs)\<in>set (zones self). \<not> (matchSuffix (qname q) l \<and> (\<exists>r\<in>set rs. is_soa r)))
            \<longrightarrow> snd (resolve self q) = Inr [])"
proof (intro conjI allI impI)
  fix pre zone_label zone_records post soa_record
  assume h: "zones self = pre @ (zone_label, zone_records) # post \<and>
            (\<forall>(l, rs)\<in>set pre. \<not> (matchSuffix (qname q) l \<and> (\<exists>r\<in>set rs. is_soa r))) \<and>
            matchSuffix (qname q) zone_label \<and> find is_soa zone_records = Some soa_record"
  then have "soa_loop q (zones self) [] = [as_rr soa_record zone_label]"
    by (simp add: soa_loop_skip)
  with assms show "snd (resolve self q) = Inr [as_rr soa_record zone_label]"
    by (simp add: resolve_def)
  from h have "is_soa soa_record" by (auto simp: find_Some_iff)
  then show "rr_rtype (as_rr soa_record zone_label) = QTYPE_SOA"
    by (simp add: as_rr_def is_soa_def)
  show "rr_rname (as_rr soa_record zone_label) =
          (case rec_rname soa_record of
             None \<Rightarrow> zone_label
           | Some n \<Rightarrow> if n = [] then zone_label else DNSLabel n)"
    by (simp add: as_rr_def)
next
  assume "\<forall>(l, rs)\<in>set (zones self). \<not> (matchSuffix (qname q) l \<and> (\<exists>r\<in>set rs. is_soa r))"
  then have "soa_loop q (zones self) [] = []" by (rule soa_loop_none)
  with assms show "snd (resolve self q) = Inr []" by (simp add: resolve_def)
qed

text \<open>
  The two examples of the spec: \<open>com\<close> with an SOA record before \<open>example.com\<close>, asked for
  \<open>www.example.com\<close>; and \<open>net\<close> and \<open>example.net\<close> with A records only, asked for \<open>sub.net\<close>.
\<close>

theorem fallback_first_soa_zone_witness:
  "snd (resolve \<lparr> zones = [(name_com, [soa_record0]), (name_example_com, [a_record ''1.2.3.4''])] \<rparr>
               \<lparr> qname = name_www_example_com, qtype = QTYPE_A \<rparr>)
     = Inr [\<lparr> rr_rname = name_com, rr_rtype = QTYPE_SOA, rr_rdata = rec_rdata soa_record0,
              rr_ttl = 86400 \<rparr>]
   \<and> snd (resolve \<lparr> zones = [(name_net, [a_record ''1.2.3.4'']),
                             (name_example_net, [a_record ''5.6.7.8''])] \<rparr>
                  \<lparr> qname = name_sub_net, qtype = QTYPE_A \<rparr>) = Inr []"
proof -
  let ?R = "\<lparr> zones = [(name_com, [soa_record0]), (name_example_com, [a_record ''1.2.3.4''])] \<rparr>"
  let ?q = "\<lparr> qname = name_www_example_com, qtype = QTYPE_A \<rparr>"
  let ?R' = "\<lparr> zones = [(name_net, [a_record ''1.2.3.4'']),
                         (name_example_net, [a_record ''5.6.7.8''])] \<rparr>"
  let ?q' = "\<lparr> qname = name_sub_net, qtype = QTYPE_A \<rparr>"
  have n: "map_of (zones ?R) (qname ?q) = None"
    by (simp add: name_com_def name_example_com_def name_www_example_com_def)
  have h: "zones ?R = [] @ (name_com, [soa_record0]) # [(name_example_com, [a_record ''1.2.3.4''])] \<and>
           (\<forall>(l, rs)\<in>set []. \<not> (matchSuffix (qname ?q) l \<and> (\<exists>r\<in>set rs. is_soa r))) \<and>
           matchSuffix (qname ?q) name_com \<and> find is_soa [soa_record0] = Some soa_record0"
    by (simp add: matchSuffix_def name_com_def name_www_example_com_def is_soa_def soa_record0_def)
  have a: "snd (resolve ?R ?q) = Inr [as_rr soa_record0 name_com]"
    using fallback_first_soa_zone [OF n] h by blast
  have n': "map_of (zones ?R') (qname ?q') = None"
    by (simp add: name_net_def name_example_net_def name_sub_net_def)
  have h': "\<forall>(l, rs)\<in>set (zones ?R'). \<not> (matchSuffix (qname ?q') l \<and> (\<exists>r\<in>set rs. is_soa r))"
    by (simp add: is_soa_def a_record_def QTYPE_defs)
  have b: "snd (resolve ?R' ?q') = Inr []"
    using fallback_first_soa_zone [OF n'] h' by blast
  from a b show ?thesis
    by (simp add: as_rr_def soa_record0_def)
qed

text \<open>
  C3 as it is written says the owner is the name of the zone. An SOA record with the
  override \<open>ns.other.org\<close>, stored under \<open>com\<close>, answers \<open>www.example.com\<close> with the owner
  \<open>ns.other.org\<close>.
\<close>

theorem fallback_owner_is_override:
  "map_of [(name_com, [soa_record_named])] name_www_example_com = None
   \<and> matchSuffix name_www_example_com name_com
   \<and> find is_soa [soa_record_named] = Some soa_record_named
   \<and> snd (resolve \<lparr> zones = [(name_com, [soa_record_named])] \<rparr>
                  \<lparr> qname = name_www_example_com, qtype = QTYPE_A \<rparr>)
       = Inr [\<lparr> rr_rname = [''ns'', ''other'', ''org''], rr_rtype = QTYPE_SOA,
                rr_rdata = rec_rdata soa_record0, rr_ttl = 86400 \<rparr>]
   \<and> [''ns'', ''other'', ''org''] \<noteq> name_com"
  by (simp add: resolve_def matchSuffix_def is_soa_def as_rr_def soa_record_named_def
      soa_record0_def name_com_def name_www_example_com_def DNSLabel_def rstrip_dot_def
      lower_char_def)

subsection \<open>The fields of a record\<close>

lemma init_fields_ttl:
  "rec_ttl (init_fields t rd rtype_arg rname_arg ttl_arg) =
     (case ttl_arg of
        Some v \<Rightarrow> v
      | None \<Rightarrow> sensible_ttl (rec_rtype (init_fields t rd rtype_arg rname_arg ttl_arg)))"
  by (simp add: init_fields_def Let_def split: option.splits)

lemma Record_init_fields:
  "Record_init e rdata_type args rtype_arg rname_arg ttl_arg = Inr r \<Longrightarrow>
   \<exists>t rd. r = init_fields t rd rtype_arg rname_arg ttl_arg"
  by (auto simp: Record_init_def Let_def split: rdata_type.splits option.splits if_splits)

text \<open>
  C4. A record built without an explicit TTL has the TTL 86400 when its type is NS or SOA
  and 300 otherwise; a record built with an explicit TTL, 0 included, has that TTL. The
  TTL is a field set by the constructor, and every answer made from the record carries it.
\<close>

theorem record_ttl:
  assumes "Record_init e rdata_type args rtype_arg rname_arg ttl_arg = Inr r"
  shows "rec_ttl r =
           (case ttl_arg of
              Some v \<Rightarrow> v
            | None \<Rightarrow> if rec_rtype r = QTYPE_NS \<or> rec_rtype r = QTYPE_SOA then 86400 else 300)
         \<and> rr_ttl (as_rr r alt_rname) = rec_ttl r"
proof -
  from assms obtain t rd where r: "r = init_fields t rd rtype_arg rname_arg ttl_arg"
    using Record_init_fields by blast
  have "rec_ttl r = (case ttl_arg of Some v \<Rightarrow> v | None \<Rightarrow> sensible_ttl (rec_rtype r))"
    unfolding r by (rule init_fields_ttl)
  then show ?thesis
    by (simp add: sensible_ttl_def as_rr_def split: option.splits)
qed

theorem record_ttl_witness:
  "Record_init env0 (Cls NS) [Str ''ns1.example.com''] None None None
     = Inr \<lparr> rec_rtype = QTYPE_NS, rec_rname = None,
             rec_rdata = RD NS [Str ''ns1.example.com''], rec_ttl = 86400 \<rparr>
   \<and> Record_init env0 (Cls A) [Str ''1.2.3.4''] None None None = Inr (a_record ''1.2.3.4'')
   \<and> rec_ttl (a_record ''1.2.3.4'') = 300
   \<and> Record_init env0 (Cls SOA) [Str ''ns.com'', Str ''admin.com''] None None (Some 0)
     = Inr (soa_record0 \<lparr> rec_ttl := 0 \<rparr>)
   \<and> rr_ttl (as_rr (soa_record0 \<lparr> rec_ttl := 0 \<rparr>) name_com) = 0"
proof -
  have 1: "Record_init env0 (Cls NS) [Str ''ns1.example.com''] None None None
     = Inr \<lparr> rec_rtype = QTYPE_NS, rec_rname = None,
             rec_rdata = RD NS [Str ''ns1.example.com''], rec_ttl = 86400 \<rparr>"
    by (simp add: Record_init_def init_fields_def env0_def sensible_ttl_def QTYPE_defs)
  have 2: "Record_init env0 (Cls A) [Str ''1.2.3.4''] None None None = Inr (a_record ''1.2.3.4'')"
    by (simp add: Record_init_def init_fields_def env0_def sensible_ttl_def a_record_def QTYPE_defs)
  have 3: "Record_init env0 (Cls SOA) [Str ''ns.com'', Str ''admin.com''] None None (Some 0)
     = Inr (soa_record0 \<lparr> rec_ttl := 0 \<rparr>)"
    by (simp add: Record_init_def init_fields_def env0_def soa_record0_def QTYPE_defs)
  show ?thesis
    using 1 2 3 record_ttl [OF 2, of name_com] record_ttl [OF 3, of name_com]
    by (simp add: QTYPE_defs a_record_def)
qed

text \<open>
  C5. An SOA record built from the class and two payload arguments gets the times
  \<^verbatim>\<open>(SERIAL, 3600, 10800, 86400, 3600)\<close> (serial, refresh, retry, expire, minimum) as the
  third argument of its payload; built with the times given, as a third argument or in a
  payload object, it keeps the times given.
\<close>

theorem soa_times:
  "(Record_init e (Cls SOA) [mname, mbox] rtype_arg rname_arg ttl_arg = Inr r \<longrightarrow>
      rec_rdata r = RD SOA [mname, mbox, Tuple [SERIAL e, 3600, 10800, 86400, 3600]])
   \<and> (Record_init e (Cls SOA) [mname, mbox, soa_fields] rtype_arg rname_arg ttl_arg = Inr r' \<longrightarrow>
      rec_rdata r' = RD SOA [mname, mbox, soa_fields])
   \<and> (Record_init e (Inst (RD SOA [mname, mbox, soa_fields])) args rtype_arg rname_arg ttl_arg = Inr r'' \<longrightarrow>
      rec_rdata r'' = RD SOA [mname, mbox, soa_fields])"
  by (auto simp: Record_init_def init_fields_def Let_def split: if_splits)

theorem soa_times_witness:
  "Record_init env0 (Cls SOA) [Str ''ns.com'', Str ''admin.com''] None None None = Inr soa_record0
   \<and> rec_rdata soa_record0
       = RD SOA [Str ''ns.com'', Str ''admin.com'', Tuple [SERIAL env0, 3600, 10800, 86400, 3600]]
   \<and> Record_init env0 (Cls SOA) [Str ''ns.com'', Str ''admin.com'', Tuple [7, 1, 2, 3, 4]]
       None None None
       = Inr (soa_record0 \<lparr> rec_rdata := RD SOA [Str ''ns.com'', Str ''admin.com'', Tuple [7, 1, 2, 3, 4]] \<rparr>)
   \<and> Record_init env0 (Inst (RD SOA [Str ''ns.com'', Str ''admin.com'', Tuple [7, 1, 2, 3, 4]])) []
       None None None
       = Inr (soa_record0 \<lparr> rec_rdata := RD SOA [Str ''ns.com'', Str ''admin.com'', Tuple [7, 1, 2, 3, 4]] \<rparr>)"
proof -
  have 1: "Record_init env0 (Cls SOA) [Str ''ns.com'', Str ''admin.com''] None None None
             = Inr soa_record0"
    by (simp add: Record_init_def init_fields_def env0_def soa_record0_def sensible_ttl_def)
  have 2: "Record_init env0 (Cls SOA) [Str ''ns.com'', Str ''admin.com'', Tuple [7, 1, 2, 3, 4]]
       None None None
       = Inr (soa_record0 \<lparr> rec_rdata := RD SOA [Str ''ns.com'', Str ''admin.com'', Tuple [7, 1, 2, 3, 4]] \<rparr>)"
    by (simp add: Record_init_def init_fields_def env0_def soa_record0_def sensible_ttl_def)
  have 3: "Record_init env0 (Inst (RD SOA [Str ''ns.com'', Str ''admin.com'', Tuple [7, 1, 2, 3, 4]])) []
       None None None
       = Inr (soa_record0 \<lparr> rec_rdata := RD SOA [Str ''ns.com'', Str ''admin.com'', Tuple [7, 1, 2, 3, 4]] \<rparr>)"
    by (simp add: Record_init_def init_fields_def env0_def soa_record0_def sensible_ttl_def)
  from soa_times [where e = env0 and mname = "Str ''ns.com''" and mbox = "Str ''admin.com''"
       and rtype_arg = None and rname_arg = None and ttl_arg = None and r = soa_record0
       and soa_fields = "Tuple [7, 1, 2, 3, 4]" and args = "[]"
       and r' = "soa_record0 \<lparr> rec_rdata := RD SOA [Str ''ns.com'', Str ''admin.com'',
                                                      Tuple [7, 1, 2, 3, 4]] \<rparr>"
       and r'' = "soa_record0 \<lparr> rec_rdata := RD SOA [Str ''ns.com'', Str ''admin.com'',
                                                       Tuple [7, 1, 2, 3, 4]] \<rparr>"] 1 2 3
  show ?thesis by (simp add: env0_def)
qed

subsection \<open>The loop that fills ZONES\<close>

lemma keys_setitem:
  "map fst (setitem d k v) = (if k \<in> set (map fst d) then map fst d else map fst d @ [k])"
  by (induction d) force+

lemma map_of_setitem: "map_of (setitem d k v) = (map_of d)(k \<mapsto> v)"
  by (induction d) (auto simp: fun_eq_iff)

lemma set_setitem: "set (setitem d k v) \<subseteq> insert (k, v) (set d)"
  by (induction d) (auto split: if_splits)

lemma Record_init_A:
  "Record_init e (Cls A) [Str ip] None None None =
     (if rd_valid e A [Str ip] then Inr (a_record ip) else Inl RDataError)"
  by (simp add: Record_init_def init_fields_def a_record_def sensible_ttl_def QTYPE_defs)

lemma zone_step_well_formed:
  "well_formed e zone \<Longrightarrow>
   zone_step e ZONES zone = Inr (setitem ZONES (entry_name zone) (entry_bucket e zone))"
  by (auto simp: well_formed_def entry_address_def entry_bucket_def entry_name_def zone_step_def
      getitem_def Record_init_A split: option.splits if_splits)

lemma zone_step_lacks_field: "lacks_field zone \<Longrightarrow> \<exists>x. zone_step e ZONES zone = Inl x"
  by (auto simp: lacks_field_def zone_step_def getitem_def split: option.splits sum.splits)

lemma zone_step_other_type: "other_type zone \<Longrightarrow> zone_step e ZONES zone = Inr ZONES"
  by (auto simp: other_type_def zone_step_def getitem_def split: option.splits)

lemma zone_step_buckets:
  "zone_step e ZONES zone = Inr ZONES' \<Longrightarrow>
   ZONES' = ZONES \<or> (\<exists>n ip. ZONES' = setitem ZONES n [a_record ip])"
  by (auto simp: zone_step_def getitem_def Record_init_A split: option.splits sum.splits if_splits)

lemma zones_loop_well_formed:
  "\<forall>zone\<in>set entries. well_formed e zone \<Longrightarrow>
   zones_loop e ZONES entries = Inr (foldl (put_entry e) ZONES entries)"
  by (induction entries arbitrary: ZONES) (auto simp: zone_step_well_formed put_entry_def)

lemma first_seen_snoc:
  "first_seen (xs @ [x]) = (if x \<in> set xs then first_seen xs else first_seen xs @ [x])"
  by (simp add: first_seen_def)

lemma set_first_seen: "set (first_seen xs) = set xs"
  by (simp add: first_seen_def)

lemma keys_foldl_put:
  "map fst (foldl (put_entry e) [] entries) = first_seen (map entry_name entries)"
proof (induction entries rule: rev_induct)
  case Nil
  then show ?case by (simp add: first_seen_def)
next
  case (snoc zone entries)
  have "set (map fst (foldl (put_entry e) [] entries)) = set (map entry_name entries)"
    by (simp only: snoc.IH set_first_seen)
  then show ?case
    using snoc.IH by (simp add: put_entry_def keys_setitem first_seen_snoc)
qed

lemma map_of_foldl_put_other:
  "k \<notin> entry_name ` set post \<Longrightarrow>
   map_of (foldl (put_entry e) ZONES post) k = map_of ZONES k"
  by (induction post arbitrary: ZONES) (auto simp: put_entry_def map_of_setitem)

lemma map_of_foldl_put_last:
  "entry_name zone \<notin> entry_name ` set post \<Longrightarrow>
   map_of (foldl (put_entry e) ZONES (pre @ zone # post)) (entry_name zone)
     = Some (entry_bucket e zone)"
  by (simp add: map_of_foldl_put_other) (simp add: put_entry_def map_of_setitem)

text \<open>
  C6, amended. When every entry is well formed the loop succeeds. Each entry stores,
  under its name, a list of one record of type A built from its address: a new name goes
  to the end of the dictionary, a name already there keeps its place and has its list
  replaced. So the names are in the order of their first entries, and the list of a name
  holds the record of the last entry of that name and nothing else.
\<close>

theorem zones_one_record_per_name:
  assumes "\<forall>zone\<in>set entries. well_formed e zone"
  shows "\<exists>ZONES. build_ZONES e entries = Inr ZONES
           \<and> map fst ZONES = first_seen (map entry_name entries)
           \<and> (\<forall>pre zone post.
                 entries = pre @ zone # post \<and> entry_name zone \<notin> entry_name ` set post
                 \<longrightarrow> (\<exists>ip. entry_address e zone = Some ip
                          \<and> map_of ZONES (entry_name zone) = Some [a_record ip]))"
proof -
  let ?Z = "foldl (put_entry e) [] entries"
  have built: "build_ZONES e entries = Inr ?Z"
    using assms by (simp add: build_ZONES_def zones_loop_well_formed)
  have keys: "map fst ?Z = first_seen (map entry_name entries)"
    by (rule keys_foldl_put)
  have bucket: "\<exists>ip. entry_address e zone = Some ip
                  \<and> map_of ?Z (entry_name zone) = Some [a_record ip]"
    if h: "entries = pre @ zone # post \<and> entry_name zone \<notin> entry_name ` set post"
    for pre zone post
  proof -
    from assms h have "well_formed e zone" by simp
    then obtain ip where ip: "entry_address e zone = Some ip"
      by (auto simp: well_formed_def split: option.splits)
    from h have "map_of ?Z (entry_name zone) = Some (entry_bucket e zone)"
      using map_of_foldl_put_last [of zone post e "[]" pre] by simp
    with ip show ?thesis by (simp add: entry_bucket_def)
  qed
  from built keys bucket show ?thesis by blast
qed

theorem zones_one_record_per_name_witness:
  "build_ZONES env0 [entry_a ''example.com'' ''1.2.3.4'', entry_a ''insignia.live'' ''5.6.7.8'',
                     entry_p ''example.com'' ''macs.insig.uk'']
     = Inr [(''example.com'', [a_record ''10.0.0.7'']), (''insignia.live'', [a_record ''5.6.7.8''])]"
proof -
  let ?entries = "[entry_a ''example.com'' ''1.2.3.4'', entry_a ''insignia.live'' ''5.6.7.8'',
                   entry_p ''example.com'' ''macs.insig.uk'']"
  have wf: "\<forall>zone\<in>set ?entries. well_formed env0 zone"
    by (simp add: well_formed_def entry_address_def entry_a_def entry_p_def env0_def)
  from zones_one_record_per_name [OF wf] obtain ZONES where
    "build_ZONES env0 ?entries = Inr ZONES" by blast
  then show ?thesis
    by (simp add: build_ZONES_def zone_step_def getitem_def Record_init_A entry_a_def entry_p_def
        env0_def)
qed

text \<open>
  C6 as it is written says two entries of one name give a list of both records. They give
  a list of the second record only.
\<close>

theorem same_name_keeps_last:
  "build_ZONES env0 [entry_a ''example.com'' ''1.2.3.4'', entry_a ''example.com'' ''5.6.7.8'']
     = Inr [(''example.com'', [a_record ''5.6.7.8''])]
   \<and> [a_record ''5.6.7.8''] \<noteq> [a_record ''1.2.3.4'', a_record ''5.6.7.8'']"
  by (simp add: build_ZONES_def zone_step_def getitem_def Record_init_A entry_a_def env0_def)

lemma zones_loop_lacks_field:
  "\<exists>zone\<in>set entries. lacks_field zone \<Longrightarrow> \<exists>x. zones_loop e ZONES entries = Inl x"
proof (induction entries arbitrary: ZONES)
  case Nil
  then show ?case by simp
next
  case (Cons zone entries)
  show ?case
  proof (cases "zone_step e ZONES zone")
    case (Inl x)
    then show ?thesis by simp
  next
    case (Inr ZONES')
    with zone_step_lacks_field [of zone e ZONES] have "\<not> lacks_field zone" by auto
    with Cons.prems have "\<exists>zone\<in>set entries. lacks_field zone" by simp
    from Cons.IH [OF this] Inr show ?thesis by simp
  qed
qed

lemma zones_loop_filter:
  "zones_loop e ZONES entries = zones_loop e ZONES (filter (\<lambda>zone. \<not> other_type zone) entries)"
  by (induction entries arbitrary: ZONES) (auto simp: zone_step_other_type split: sum.splits)

text \<open>
  C7, amended. A list that holds an entry without a type, or an entry of type \<^verbatim>\<open>"a"\<close> or
  \<^verbatim>\<open>"p"\<close> without a name or without a value, makes the loop raise some exception: no
  dictionary is produced. An entry of any other type is passed over without an error,
  whatever else it lacks: the loop does what it does on the list without these entries.
\<close>

theorem malformed_entries:
  "((\<exists>zone\<in>set entries. lacks_field zone) \<longrightarrow> (\<exists>x. build_ZONES e entries = Inl x))
   \<and> build_ZONES e entries = build_ZONES e (filter (\<lambda>zone. \<not> other_type zone) entries)"
  using zones_loop_lacks_field [of entries e "[]"] zones_loop_filter [of e "[]" entries]
  by (simp add: build_ZONES_def)

theorem malformed_entries_witness:
  "build_ZONES env0 [entry_a ''example.com'' ''1.2.3.4'', [(''type'', ''a''), (''name'', ''x.com'')]]
     = Inl (KeyError ''value'')
   \<and> build_ZONES env0 [[(''name'', ''x.com''), (''value'', ''1.2.3.4'')]] = Inl (KeyError ''type'')
   \<and> build_ZONES env0 [[(''type'', ''p''), (''value'', ''macs.insig.uk'')]] = Inl (KeyError ''name'')"
proof -
  have "\<exists>zone\<in>set [entry_a ''example.com'' ''1.2.3.4'', [(''type'', ''a''), (''name'', ''x.com'')]].
          lacks_field zone"
    by (simp add: lacks_field_def entry_a_def)
  with malformed_entries
    [of "[entry_a ''example.com'' ''1.2.3.4'', [(''type'', ''a''), (''name'', ''x.com'')]]" env0]
  obtain x where
    "build_ZONES env0 [entry_a ''example.com'' ''1.2.3.4'', [(''type'', ''a''), (''name'', ''x.com'')]]
       = Inl x" by blast
  then show ?thesis
    by (simp add: build_ZONES_def zone_step_def getitem_def Record_init_A entry_a_def env0_def)
qed

text \<open>
  C7 as it is written says an entry of an unknown type makes the construction fail. Two
  such entries, one of them without a name and a value, are dropped and the dictionary is
  built from the third entry.
\<close>

theorem other_type_is_dropped:
  "build_ZONES env0 [[(''type'', ''cname''), (''name'', ''x.com''), (''value'', ''y.com'')],
                     [(''type'', ''mx'')],
                     entry_a ''example.com'' ''1.2.3.4'']
     = Inr [(''example.com'', [a_record ''1.2.3.4''])]"
  by (simp add: build_ZONES_def zone_step_def getitem_def Record_init_A entry_a_def env0_def)

subsection \<open>What the loop can store, and what the resolver makes of it\<close>

text \<open>
  Every list the loop stores is a list of one A record; \<^verbatim>\<open>Resolver.__init__\<close> moves the
  lists to their names without touching them; and a scan over such lists finds no SOA
  record.
\<close>

lemma a_bucket_a_record: "a_bucket [a_record ip]"
  by (simp add: a_bucket_def a_record_def)

lemma a_bucket_iff: "a_bucket rs \<longleftrightarrow> (\<exists>r. rs = [r] \<and> rec_rtype r = QTYPE_A)"
  by (auto simp: a_bucket_def split: list.splits)

lemma a_bucket_no_soa: "a_bucket rs \<Longrightarrow> find is_soa rs = None"
  by (auto simp: a_bucket_iff is_soa_def QTYPE_defs)

lemma setitem_buckets:
  assumes "\<forall>(k, rs)\<in>set d. P rs" and "P v"
  shows "\<forall>(k, rs)\<in>set (setitem d k' v). P rs"
proof -
  have "P rs" if "(k, rs) \<in> set (setitem d k' v)" for k rs
  proof -
    from that set_setitem [of d k' v] have "(k, rs) = (k', v) \<or> (k, rs) \<in> set d" by auto
    with assms show ?thesis by auto
  qed
  then show ?thesis by auto
qed

lemma zone_step_a_buckets:
  assumes "zone_step e ZONES zone = Inr ZONES'" and "\<forall>(k, rs)\<in>set ZONES. a_bucket rs"
  shows "\<forall>(k, rs)\<in>set ZONES'. a_bucket rs"
proof -
  from zone_step_buckets [OF assms(1)] consider "ZONES' = ZONES"
    | n ip where "ZONES' = setitem ZONES n [a_record ip]" by blast
  then show ?thesis
  proof cases
    case 1
    with assms(2) show ?thesis by simp
  next
    case 2
    from setitem_buckets [of ZONES a_bucket "[a_record ip]" n, OF assms(2) a_bucket_a_record]
    show ?thesis unfolding 2 .
  qed
qed

lemma zones_loop_a_buckets:
  "zones_loop e ZONES entries = Inr ZONES' \<Longrightarrow> \<forall>(k, rs)\<in>set ZONES. a_bucket rs \<Longrightarrow>
   \<forall>(k, rs)\<in>set ZONES'. a_bucket rs"
proof (induction entries arbitrary: ZONES)
  case Nil
  then show ?case by simp
next
  case (Cons zone entries)
  from Cons.prems(1) obtain Z1 where
    s: "zone_step e ZONES zone = Inr Z1" and l: "zones_loop e Z1 entries = Inr ZONES'"
    by (auto split: sum.splits)
  from zone_step_a_buckets [OF s Cons.prems(2)] have "\<forall>(k, rs)\<in>set Z1. a_bucket rs" .
  from Cons.IH [OF l this] show ?case .
qed

lemma relabel_buckets:
  "\<forall>(k, rs)\<in>set acc. P rs \<Longrightarrow> \<forall>(k, rs)\<in>set items. P rs \<Longrightarrow>
   \<forall>(k, rs)\<in>set (relabel acc items). P rs"
proof (induction items arbitrary: acc)
  case Nil
  then show ?case by simp
next
  case (Cons kv items)
  obtain k v where kv: "kv = (k, v)" by (cases kv)
  from Cons.prems(2) kv have v: "P v" and rest: "\<forall>(k, rs)\<in>set items. P rs" by auto
  from setitem_buckets [OF Cons.prems(1) v]
  have "\<forall>(k', rs)\<in>set (setitem acc (DNSLabel k) v). P rs" .
  from Cons.IH [OF this rest] show ?case by (simp add: kv)
qed

lemma soa_loop_a_buckets:
  "\<forall>(l, rs)\<in>set zs. a_bucket rs \<Longrightarrow> soa_loop q zs reply = reply"
  by (rule soa_loop_none) (auto simp: a_bucket_iff is_soa_def QTYPE_defs)

text \<open>
  C10. In every dictionary the loop produces, every name has a list of exactly one
  record, and the record is of type A, so it is no SOA record; the same holds for the
  zones of the resolver made from the dictionary. So a query whose name has no zone in
  that resolver gets a reply with no answers.
\<close>

theorem built_zones_have_no_soa:
  assumes "build_ZONES e entries = Inr ZONES"
  shows "(\<forall>(k, rs)\<in>set ZONES. \<exists>r. rs = [r] \<and> rec_rtype r = QTYPE_A \<and> \<not> is_soa r)
       \<and> (\<forall>(l, rs)\<in>set (zones (Resolver_init ZONES)).
             \<exists>r. rs = [r] \<and> rec_rtype r = QTYPE_A \<and> \<not> is_soa r)
       \<and> (map_of (zones (Resolver_init ZONES)) (qname q) = None
            \<longrightarrow> snd (resolve (Resolver_init ZONES) q) = Inr [])"
proof -
  have no_soa: "\<exists>r. rs = [r] \<and> rec_rtype r = QTYPE_A \<and> \<not> is_soa r" if "a_bucket rs" for rs
    using that by (auto simp: a_bucket_iff is_soa_def QTYPE_defs)
  from assms have Z: "\<forall>(k, rs)\<in>set ZONES. a_bucket rs"
    unfolding build_ZONES_def by (rule zones_loop_a_buckets) simp
  have R: "\<forall>(l, rs)\<in>set (zones (Resolver_init ZONES)). a_bucket rs"
    using relabel_buckets [of "[]" a_bucket ZONES, OF _ Z] by (simp add: Resolver_init_def)
  from R have "soa_loop q (zones (Resolver_init ZONES)) [] = []"
    by (rule soa_loop_a_buckets)
  then have "map_of (zones (Resolver_init ZONES)) (qname q) = None
            \<longrightarrow> snd (resolve (Resolver_init ZONES) q) = Inr []"
    by (simp add: resolve_def)
  then have fallback: "map_of (zones (Resolver_init ZONES)) (qname q) = None
            \<longrightarrow> snd (resolve (Resolver_init ZONES) q) = Inr []" .
  have 1: "\<forall>(k, rs)\<in>set ZONES. \<exists>r. rs = [r] \<and> rec_rtype r = QTYPE_A \<and> \<not> is_soa r"
  proof clarify
    fix k rs
    assume "(k, rs) \<in> set ZONES"
    with Z have "a_bucket rs" by auto
    then show "\<exists>r. rs = [r] \<and> rec_rtype r = QTYPE_A \<and> \<not> is_soa r" by (rule no_soa)
  qed
  have 2: "\<forall>(l, rs)\<in>set (zones (Resolver_init ZONES)).
             \<exists>r. rs = [r] \<and> rec_rtype r = QTYPE_A \<and> \<not> is_soa r"
  proof clarify
    fix l rs
    assume "(l, rs) \<in> set (zones (Resolver_init ZONES))"
    with R have "a_bucket rs" by auto
    then show "\<exists>r. rs = [r] \<and> rec_rtype r = QTYPE_A \<and> \<not> is_soa r" by (rule no_soa)
  qed
  from 1 2 fallback show ?thesis by (intro conjI)
qed

theorem built_zones_have_no_soa_witness:
  "build_ZONES env0 [entry_a ''com'' ''1.2.3.4'', entry_p ''Example.COM.'' ''macs.insig.uk'']
     = Inr [(''com'', [a_record ''1.2.3.4'']), (''Example.COM.'', [a_record ''10.0.0.7''])]
   \<and> zones (Resolver_init [(''com'', [a_record ''1.2.3.4'']),
                           (''Example.COM.'', [a_record ''10.0.0.7''])])
     = [(name_com, [a_record ''1.2.3.4'']), (name_example_com, [a_record ''10.0.0.7''])]
   \<and> snd (resolve (Resolver_init [(''com'', [a_record ''1.2.3.4'']),
                                 (''Example.COM.'', [a_record ''10.0.0.7''])])
                  \<lparr> qname = name_www_example_com, qtype = QTYPE_A \<rparr>) = Inr []"
proof -
  let ?Z = "[(''com'', [a_record ''1.2.3.4'']), (''Example.COM.'', [a_record ''10.0.0.7''])]"
  have b: "build_ZONES env0 [entry_a ''com'' ''1.2.3.4'', entry_p ''Example.COM.'' ''macs.insig.uk'']
             = Inr ?Z"
    by (simp add: build_ZONES_def zone_step_def getitem_def Record_init_A entry_a_def entry_p_def
        env0_def)
  have z: "zones (Resolver_init ?Z)
             = [(name_com, [a_record ''1.2.3.4'']), (name_example_com, [a_record ''10.0.0.7''])]"
    by (simp add: Resolver_init_def DNSLabel_def rstrip_dot_def lower_char_def name_com_def
        name_example_com_def)
  have n: "map_of (zones (Resolver_init ?Z)) (qname \<lparr> qname = name_www_example_com, qtype = QTYPE_A \<rparr>)
             = None"
    unfolding z by (simp add: name_com_def name_example_com_def name_www_example_com_def)
  from built_zones_have_no_soa [OF b, of "\<lparr> qname = name_www_example_com, qtype = QTYPE_A \<rparr>"] n
  have "snd (resolve (Resolver_init ?Z) \<lparr> qname = name_www_example_com, qtype = QTYPE_A \<rparr>) = Inr []"
    by blast
  with b z show ?thesis by simp
qed

end
